theory Spec2Isabelle
  imports Main "HOL-Library.Word" "HOL-Library.Char_ord" "HOL-Library.List_Lexorder"
    "HOL-Library.Multiset"
begin

section \<open>The delegation walker of main.go\<close>

text \<open>
  The program asks a resolver for the NS records of the root zone, then of every
  suffix of the target domain in turn, each time at a nameserver picked from the
  previous answer. Go strings are byte strings, hence \<open>string\<close> (a list of 8-bit
  characters); a nil slice and an empty slice are both \<open>[]\<close>; a nil pointer or a
  nil error is \<open>None\<close>.
\<close>

unbundle bit_operations_syntax

subsection \<open>Data of the DNS package that the program touches\<close>

type_synonym uint16 = "16 word"

text \<open>An error value, identified with the text its \<open>Error()\<close> method gives.\<close>

datatype error = errorString string

fun Error :: "error \<Rightarrow> string" where
  "Error (errorString s) = s"

text \<open>
  A resource record. The program only asks whether a record is a \<open>*dns.NS\<close> and, if
  so, reads its field \<open>Ns\<close>; every other record kind is \<open>OtherRR\<close>.
\<close>

datatype RR = NS string | OtherRR string

text \<open>The fields of \<open>dns.Msg\<close> the program reads: the status and two sections.\<close>

record Msg =
  Rcode :: int
  Answer :: "RR list"
  Ns :: "RR list"

definition RcodeSuccess :: int where
  "RcodeSuccess = 0"

definition RcodeNameError :: int where
  "RcodeNameError = 3"

definition TypeNS :: uint16 where
  "TypeNS = 2"

record ClientConfig =
  Servers :: "string list"

subsection \<open>Name functions of the DNS package\<close>

text \<open>
  \<open>dns.IsFqdn\<close>, \<open>dns.Fqdn\<close>, \<open>dns.NextLabel\<close>, \<open>dns.Split\<close> and
  \<open>dns.SplitDomainName\<close> belong to the imported package github.com/miekg/dns, not
  to main.go. They are written out here as that package defines them (labels.go,
  defaults.go). A dot separates labels unless an odd number of backslashes stands
  right before it. A name is fully qualified when it ends in a dot that is not
  escaped: \<open>IsFqdn\<close> finds the last rune that is not a backslash with
  \<open>strings.LastIndexFunc\<close>, which steps backwards over the string rune by rune
  with \<open>utf8.DecodeLastRuneInString\<close>; both are written out as well, a rune being
  its code point and a byte its value.
\<close>

definition byte :: "char \<Rightarrow> nat" where
  "byte c = of_char c"

definition RuneError :: nat where
  "RuneError = 0xFFFD"

definition RuneSelf :: nat where
  "RuneSelf = 0x80"

definition UTFMax :: int where
  "UTFMax = 4"

text \<open>
  The table \<open>first\<close> of unicode/utf8 (0xF0 for ASCII, 0xF1 for a byte that starts no
  rune, else the size in the low bits and the index of the range accepted for the
  second byte in the high bits) and the table \<open>acceptRanges\<close>.
\<close>

definition first :: "nat \<Rightarrow> nat" where
  "first b =
     (if b < 0x80 then 0xF0
      else if b < 0xC2 then 0xF1
      else if b < 0xE0 then 0x02
      else if b = 0xE0 then 0x13
      else if b < 0xED then 0x03
      else if b = 0xED then 0x23
      else if b < 0xF0 then 0x03
      else if b = 0xF0 then 0x34
      else if b < 0xF4 then 0x04
      else if b = 0xF4 then 0x44
      else 0xF1)"

definition acceptRanges :: "nat \<Rightarrow> nat \<times> nat" where
  "acceptRanges k =
     (if k = 0 then (0x80, 0xBF)
      else if k = 1 then (0xA0, 0xBF)
      else if k = 2 then (0x80, 0x9F)
      else if k = 3 then (0x90, 0xBF)
      else if k = 4 then (0x80, 0x8F)
      else (0, 0))"

definition RuneStart :: "char \<Rightarrow> bool" where
  "RuneStart b = (byte b AND 0xC0 \<noteq> 0x80)"

definition DecodeRuneInString :: "string \<Rightarrow> nat \<times> nat" where
  "DecodeRuneInString s =
     (let n = length s
      in if n < 1 then (RuneError, 0)
         else
           (let s0 = byte (s ! 0); x = first s0
            in if x \<ge> 0xF0 then ((if x = 0xF0 then s0 else RuneError), 1)
               else
                 (let sz = x AND 7
                  in case acceptRanges (drop_bit 4 x) of
                       (lo, hi) \<Rightarrow>
                         if n < sz then (RuneError, 1)
                         else
                           (let s1 = byte (s ! 1)
                            in if s1 < lo \<or> hi < s1 then (RuneError, 1)
                               else if sz \<le> 2
                                 then (push_bit 6 (s0 AND 0x1F) OR (s1 AND 0x3F), 2)
                               else
                                 (let s2 = byte (s ! 2)
                                  in if s2 < 0x80 \<or> 0xBF < s2 then (RuneError, 1)
                                     else if sz \<le> 3
                                       then (push_bit 12 (s0 AND 0x0F) OR push_bit 6 (s1 AND 0x3F)
                                               OR (s2 AND 0x3F), 3)
                                     else
                                       (let s3 = byte (s ! 3)
                                        in if s3 < 0x80 \<or> 0xBF < s3 then (RuneError, 1)
                                           else (push_bit 18 (s0 AND 0x07)
                                                   OR push_bit 12 (s1 AND 0x3F)
                                                   OR push_bit 6 (s2 AND 0x3F)
                                                   OR (s3 AND 0x3F), 4)))))))"

text \<open>
  The loop of \<open>DecodeLastRuneInString\<close> that looks for the start of the last rune:
  \<open>for start--; start >= lim; start-- { if RuneStart(s[start]) { break } }\<close>.
\<close>

function lastRuneStart :: "string \<Rightarrow> int \<Rightarrow> int \<Rightarrow> int" where
  "lastRuneStart s lim start =
     (if start \<ge> lim then
        (if RuneStart (s ! nat start) then start else lastRuneStart s lim (start - 1))
      else start)"
  by pat_completeness auto
termination
  by (relation "measure (\<lambda>(s, lim, start). nat (start - lim + 1))") simp_all

declare lastRuneStart.simps [simp del]

definition DecodeLastRuneInString :: "string \<Rightarrow> nat \<times> nat" where
  "DecodeLastRuneInString s =
     (let end = int (length s)
      in if end = 0 then (RuneError, 0)
         else
           (let start = end - 1; r = byte (s ! nat start)
            in if r < RuneSelf then (r, 1)
               else
                 (let lim = (if end - UTFMax < 0 then 0 else end - UTFMax);
                      start = lastRuneStart s lim (start - 1);
                      start = (if start < 0 then 0 else start)
                  in case DecodeRuneInString (drop (nat start) s) of
                       (r, sz) \<Rightarrow>
                         if start + int sz \<noteq> end then (RuneError, 1) else (r, sz))))"


text \<open>The last rune of a string that is not empty takes at least one of its bytes.\<close>

lemma lastRuneStart_le: "lastRuneStart s lim start \<le> start"
proof (induction s lim start rule: lastRuneStart.induct)
  case (1 s lim start)
  show ?case
  proof (cases "start \<ge> lim \<and> \<not> RuneStart (s ! nat start)")
    case True
    then have "lastRuneStart s lim start = lastRuneStart s lim (start - 1)"
      by (subst lastRuneStart.simps) simp
    with "1.IH" True show ?thesis by simp
  next
    case False
    then have "lastRuneStart s lim start = start"
      by (subst lastRuneStart.simps) auto
    then show ?thesis by simp
  qed
qed

lemma DecodeLastRuneInString_size:
  assumes "s \<noteq> []"
  shows "1 \<le> snd (DecodeLastRuneInString s) \<and> snd (DecodeLastRuneInString s) \<le> length s"
proof -
  let ?end = "int (length s)"
  let ?lim = "if ?end - UTFMax < 0 then 0 else ?end - UTFMax"
  let ?st = "lastRuneStart s ?lim (?end - 1 - 1)"
  let ?start = "if ?st < 0 then 0 else ?st"
  obtain r sz where d: "DecodeRuneInString (drop (nat ?start) s) = (r, sz)"
    by (cases "DecodeRuneInString (drop (nat ?start) s)")
  from assms have e: "1 \<le> ?end" by (cases s) simp_all
  have "?st \<le> ?end - 2" using lastRuneStart_le [of s ?lim "?end - 1 - 1"] by simp
  with e have s: "0 \<le> ?start" "?start \<le> ?end - 1" by auto
  have "?start + int sz = ?end \<Longrightarrow> 1 \<le> sz \<and> sz \<le> length s"
    using s by auto
  with assms e d show ?thesis
    by (auto simp: DecodeLastRuneInString_def Let_def)
qed

text \<open>
  \<open>strings.LastIndexFunc(s, f)\<close>: the loop \<open>for i := len(s); i > 0;\<close> decodes
  the last rune of \<open>s[0:i]\<close> and steps over it; the argument here is that prefix.
\<close>

function lastIndexFunc :: "string \<Rightarrow> (nat \<Rightarrow> bool) \<Rightarrow> int" where
  "lastIndexFunc s f =
     (if length s > 0 then
        (case DecodeLastRuneInString s of
           (r, sz) \<Rightarrow>
             (let i = length s - sz
              in if f r then int i else lastIndexFunc (take i s) f))
      else - 1)"
  by pat_completeness auto
termination
proof (relation "measure (\<lambda>(s, f). length s)")
  show "wf (measure (\<lambda>(s, f). length s))" by simp
next
  fix s :: string and f :: "nat \<Rightarrow> bool" and r sz i :: nat
  assume "0 < length s" and d: "(r, sz) = DecodeLastRuneInString s" and "i = length s - sz"
    and "\<not> f r"
  then have "s \<noteq> []" by auto
  from DecodeLastRuneInString_size [OF this] d [symmetric] have "1 \<le> sz" "sz \<le> length s"
    by simp_all
  with \<open>i = length s - sz\<close>
  show "((take i s, f), (s, f)) \<in> measure (\<lambda>(s, f). length s)"
    by simp
qed

declare lastIndexFunc.simps [simp del]

text \<open>
  \<open>IsFqdn\<close>: the last byte must be a dot and, when a backslash stands before it,
  the distance from the last rune that is not a backslash must be odd.
\<close>

definition IsFqdn :: "string \<Rightarrow> bool" where
  "IsFqdn s0 =
     (if s0 = [] \<or> s0 ! (length s0 - 1) \<noteq> CHR ''.'' then False
      else
        (let s = take (length s0 - 1) s0
         in if s = [] \<or> s ! (length s - 1) \<noteq> CHR 0x5C then True
            else
              (let i = lastIndexFunc s (\<lambda>r. r \<noteq> 0x5C)
               in (int (length s) - i) mod 2 \<noteq> 0)))"

definition Fqdn :: "string \<Rightarrow> string" where
  "Fqdn s = (if IsFqdn s then s else s @ ''.'')"

text \<open>The inner loop of \<open>NextLabel\<close>: \<open>for j >= 0 && s[j] == '\\' { j-- }\<close>.\<close>

function skipBackslashes :: "string \<Rightarrow> int \<Rightarrow> int" where
  "skipBackslashes s j =
     (if 0 \<le> j \<and> s ! nat j = CHR 0x5C then skipBackslashes s (j - 1) else j)"
  by pat_completeness auto
termination
  by (relation "measure (\<lambda>(s, j). nat (j + 1))") auto

declare skipBackslashes.simps [simp del]



text \<open>
  The outer loop of \<open>NextLabel\<close>, from index \<open>i\<close> on. Go's \<open>(j-i)%2 == 0\<close> holds
  exactly when \<open>j - i\<close> is even, which is what \<open>mod\<close> tests here.
\<close>

function NextLabel_loop :: "string \<Rightarrow> nat \<Rightarrow> nat \<times> bool" where
  "NextLabel_loop s i =
     (if int i < int (length s) - 1 then
        (if s ! i \<noteq> CHR ''.'' then NextLabel_loop s (i + 1)
         else (let j = skipBackslashes s (int i - 1)
               in if (j - int i) mod 2 = 0 then NextLabel_loop s (i + 1)
                  else (i + 1, False)))
      else (i + 1, True))"
  by pat_completeness auto
termination
  by (relation "measure (\<lambda>(s, i). length s - i)") simp_all

declare NextLabel_loop.simps [simp del]

definition NextLabel :: "string \<Rightarrow> nat \<Rightarrow> nat \<times> bool" where
  "NextLabel s offset = (if s = [] then (0, True) else NextLabel_loop s offset)"

text \<open>One turn of the outer loop, case by case, and the bound that \<open>Split\<close> needs.\<close>

lemma NextLabel_loop_end:
  "\<not> int i < int (length t) - 1 \<Longrightarrow> NextLabel_loop t i = (i + 1, True)"
  by (subst NextLabel_loop.simps) simp

lemma NextLabel_loop_skip:
  "int i < int (length t) - 1 \<Longrightarrow> t ! i \<noteq> CHR ''.'' \<Longrightarrow>
   NextLabel_loop t i = NextLabel_loop t (i + 1)"
  by (subst NextLabel_loop.simps) simp

lemma NextLabel_loop_escaped:
  "int i < int (length t) - 1 \<Longrightarrow> t ! i = CHR ''.'' \<Longrightarrow>
   (skipBackslashes t (int i - 1) - int i) mod 2 = 0 \<Longrightarrow>
   NextLabel_loop t i = NextLabel_loop t (i + 1)"
  apply (subst NextLabel_loop.simps)
  apply (simp only: Let_def if_True if_False simp_thms)
  done

lemma NextLabel_loop_dot:
  "int i < int (length t) - 1 \<Longrightarrow> t ! i = CHR ''.'' \<Longrightarrow>
   (skipBackslashes t (int i - 1) - int i) mod 2 \<noteq> 0 \<Longrightarrow>
   NextLabel_loop t i = (i + 1, False)"
  apply (subst NextLabel_loop.simps)
  apply (simp only: Let_def if_True if_False simp_thms)
  done

lemma NextLabel_loop_more: "NextLabel_loop t i = (k, False) \<Longrightarrow> i < k \<and> k < length t"
proof (induction t i rule: NextLabel_loop.induct)
  case (1 t i)
  show ?case
  proof (cases "int i < int (length t) - 1")
    case False
    with "1.prems" show ?thesis by (simp add: NextLabel_loop_end)
  next
    case lt: True
    show ?thesis
    proof (cases "t ! i \<noteq> CHR ''.''")
      case True
      with lt "1.prems" have "NextLabel_loop t (i + 1) = (k, False)"
        by (simp add: NextLabel_loop_skip)
      from "1.IH"(1) [OF lt True this] show ?thesis by simp
    next
      case False
      then have dot: "t ! i = CHR ''.''" by simp
      show ?thesis
      proof (cases "(skipBackslashes t (int i - 1) - int i) mod 2 = 0")
        case True
        with lt dot "1.prems" have "NextLabel_loop t (i + 1) = (k, False)"
          by (simp add: NextLabel_loop_escaped)
        from "1.IH"(2) [OF lt False refl True this] show ?thesis by simp
      next
        case False
        with lt dot "1.prems" have "k = i + 1"
          by (simp add: NextLabel_loop_dot)
        with lt show ?thesis by simp
      qed
    qed
  qed
qed

text \<open>
  \<open>Split\<close> collects the start index of every label. Its loop ends when
  \<open>NextLabel\<close> reports the end of the name; until then the offset grows and stays
  below the length, which is the termination argument.
\<close>

function Split_loop :: "string \<Rightarrow> nat \<Rightarrow> nat list" where
  "Split_loop s off =
     (case NextLabel s off of
        (off', end) \<Rightarrow> if end then [] else off' # Split_loop s off')"
  by pat_completeness auto
termination
proof (relation "measure (\<lambda>(s, off). length s - off)")
  show "wf (measure (\<lambda>(s, off). length s - off))" by simp
next
  fix s :: string and off off' :: nat and e :: bool
  assume "(off', e) = NextLabel s off" and "\<not> e"
  then have "NextLabel_loop s off = (off', False)"
    by (cases "s = []") (simp_all add: NextLabel_def)
  then have "off < off' \<and> off' < length s"
    by (rule NextLabel_loop_more)
  then show "((s, off'), s, off) \<in> measure (\<lambda>(s, off). length s - off)"
    by (auto intro: diff_less_mono2)
qed

declare Split_loop.simps [simp del]

definition Split :: "string \<Rightarrow> nat list" where
  "Split s = (if s = ''.'' then [] else 0 # Split_loop s 0)"

text \<open>The Go slice expression \<open>s[a:b]\<close> for \<open>a \<le> b \<le> len(s)\<close>.\<close>

definition substring :: "string \<Rightarrow> nat \<Rightarrow> nat \<Rightarrow> string" where
  "substring s a b = take (b - a) (drop a s)"

text \<open>
  The loop of \<open>SplitDomainName\<close> over \<open>idx[1:]\<close>: each index closes the label that
  started at \<open>begin\<close>; the last label runs up to \<open>fqdnEnd\<close>.
\<close>

fun SplitDomainName_loop :: "string \<Rightarrow> nat \<Rightarrow> string list \<Rightarrow> nat \<Rightarrow> nat list \<Rightarrow> string list" where
  "SplitDomainName_loop s fqdnEnd labels begin [] = labels @ [substring s begin fqdnEnd]"
| "SplitDomainName_loop s fqdnEnd labels begin (end # idx) =
     SplitDomainName_loop s fqdnEnd (labels @ [substring s begin (end - 1)]) end idx"

definition SplitDomainName :: "string \<Rightarrow> string list" where
  "SplitDomainName s =
     (if s = [] then []
      else (let idx = Split s;
                fqdnEnd = (if IsFqdn s then length s - 1 else length s)
            in case idx of
                 [] \<Rightarrow> []
               | _ # rest \<Rightarrow> SplitDomainName_loop s fqdnEnd [] 0 rest))"

subsection \<open>The world outside the program\<close>

text \<open>
  What main.go reads and changes beyond its own variables: the network, the
  process-wide random source of math/rand, standard output, and the shared message
  \<open>localm\<close> whose single question is overwritten before each exchange.
  The network is any function from the number of exchanges made so far, the question
  and the address to what \<open>Exchange\<close> returns: a response or nil, and an error or
  nil. \<open>sent\<close> lists the exchanges made, oldest first. The random source is any
  sequence of numbers; \<open>drawn\<close> counts those used up.
\<close>

record world =
  net :: "nat \<Rightarrow> string \<Rightarrow> uint16 \<Rightarrow> string \<Rightarrow> Msg option \<times> error option"
  sent :: "(string \<times> uint16 \<times> string) list"
  localm :: "string \<times> uint16"
  rnd :: "nat \<Rightarrow> nat"
  drawn :: nat
  stdout :: "string list"

definition SetQuestion :: "string \<Rightarrow> uint16 \<Rightarrow> world \<Rightarrow> world" where
  "SetQuestion qname qtype w = w\<lparr>localm := (qname, qtype)\<rparr>"

definition Exchange :: "string \<Rightarrow> world \<Rightarrow> (Msg option \<times> error option) \<times> world" where
  "Exchange address w =
     (case localm w of
        (qname, qtype) \<Rightarrow>
          (net w (length (sent w)) qname qtype address,
           w\<lparr>sent := sent w @ [(qname, qtype, address)]\<rparr>))"

text \<open>
  \<open>rand.Intn(n)\<close> gives some number from 0 up to \<open>n - 1\<close>: the next number of the
  source, reduced modulo \<open>n\<close>. It panics for \<open>n \<le> 0\<close>; its one call in main.go comes
  after the check that the list is not empty.
\<close>

definition Intn :: "nat \<Rightarrow> world \<Rightarrow> nat \<times> world" where
  "Intn n w = (rnd w (drawn w) mod n, w\<lparr>drawn := drawn w + 1\<rparr>)"

definition Print :: "string \<Rightarrow> world \<Rightarrow> world" where
  "Print s w = w\<lparr>stdout := stdout w @ [s]\<rparr>"

definition Println :: "string \<Rightarrow> world \<Rightarrow> world" where
  "Println s w = Print (s @ [CHR 0x0A]) w"

subsection \<open>localQuery\<close>

definition localQuery ::
  "string \<Rightarrow> uint16 \<Rightarrow> string \<Rightarrow> world \<Rightarrow> (Msg option \<times> error option) \<times> world" where
  "localQuery qname qtype server w =
     (case Exchange (server @ '':53'') (SetQuestion qname qtype w) of
        ((r, err), w') \<Rightarrow>
          if err \<noteq> None then ((None, err), w')
          else if (case r of None \<Rightarrow> True
                   | Some m \<Rightarrow> Rcode m = RcodeNameError \<or> Rcode m = RcodeSuccess)
               then ((r, err), w')
          else ((None, Some (errorString ''No name server to answer the question'')), w'))"

subsection \<open>getNsRecords\<close>

text \<open>
  The two \<open>range\<close> loops: every \<open>*dns.NS\<close> record of the section appends its
  \<open>Ns\<close> field to \<open>nameservers\<close>; other records are passed over.
\<close>

fun appendNs :: "string list \<Rightarrow> RR list \<Rightarrow> string list" where
  "appendNs nameservers [] = nameservers"
| "appendNs nameservers (NS nameserver # rrs) = appendNs (nameservers @ [nameserver]) rrs"
| "appendNs nameservers (OtherRR _ # rrs) = appendNs nameservers rrs"

text \<open>
  The result is the triple of the Go function together with the world it leaves.
  \<open>sort.Strings\<close> sorts the slice in place, in the byte-wise order of Go strings,
  so the list returned is the sorted one.
\<close>

definition getNsRecords ::
  "string \<Rightarrow> string \<Rightarrow> world \<Rightarrow> (string list \<times> string \<times> error option) \<times> world" where
  "getNsRecords zone0 server w =
     (let zone = Fqdn zone0
      in case localQuery zone TypeNS server w of
           ((r, err), w1) \<Rightarrow>
             (case r of
                None \<Rightarrow> (([], [], err), w1)
              | Some m \<Rightarrow>
                  if err \<noteq> None then (([], [], err), w1)
                  else
                    (let nameservers = appendNs [] (Answer m);
                         nameservers = (if length nameservers = 0
                                        then appendNs nameservers (Ns m)
                                        else nameservers)
                     in if length nameservers = 0
                        then (([], [],
                               Some (errorString (''No nameservers found for '' @ zone))), w1)
                        else (case Intn (length nameservers) w1 of
                                (k, w2) \<Rightarrow>
                                  (let randomNs = nameservers ! k
                                   in ((sort nameservers, randomNs, None), w2))))))"

subsection \<open>main\<close>

text \<open>
  How the process ends: \<open>main\<close> returns, \<open>log.Fatalf\<close> or \<open>log.Fatalln\<close> stops it
  with a message (given here without the time stamp of the logger), or an index
  out of range panics.
\<close>

datatype exit = Returned | Fatal string | Panic string

text \<open>The marker \<open>" \<rightarrow> "\<close> of the chosen nameserver, as the bytes of the source file.\<close>

definition arrow :: string where
  "arrow = [CHR 0x20, CHR 0xE2, CHR 0x9E, CHR 0xA1, CHR 0xEF, CHR 0xB8, CHR 0x8F, CHR 0x20]"

fun printRootNameservers :: "string list \<Rightarrow> string \<Rightarrow> world \<Rightarrow> world" where
  "printRootNameservers [] nextNs w = w"
| "printRootNameservers (nameserver # rest) nextNs w =
     printRootNameservers rest nextNs
       (if nameserver = nextNs then Println (arrow @ nameserver) w
        else Println ('' - '' @ nameserver) w)"

fun printNameservers :: "string \<Rightarrow> string \<Rightarrow> string list \<Rightarrow> string \<Rightarrow> world \<Rightarrow> world" where
  "printNameservers domain assembledDomain [] nextNs w = w"
| "printNameservers domain assembledDomain (nameserver # rest) nextNs w =
     printNameservers domain assembledDomain rest nextNs
       (if nameserver = nextNs \<and> Fqdn domain \<noteq> assembledDomain
        then Println (arrow @ nameserver) w
        else Println ('' - '' @ nameserver) w)"

text \<open>The line printed before each query of the loop (line 150).\<close>

definition header :: "string \<Rightarrow> string \<Rightarrow> string" where
  "header assembledDomain nextNs =
     ''Finding nameservers for zone '' @ [CHR 0x27] @ assembledDomain @ [CHR 0x27]
     @ '' using parent nameserver '' @ [CHR 0x27] @ nextNs @ [CHR 0x27]"

text \<open>Lines 144 to 148: the next label goes in front of the zone assembled so far.\<close>

definition assemble :: "string \<Rightarrow> string \<Rightarrow> string" where
  "assemble assembledDomain element =
     (if assembledDomain = ''.'' then element @ ''.''
      else element @ ''.'' @ assembledDomain)"

text \<open>
  The reverse loop of \<open>main\<close> over \<open>domainPieces\<close>; the other arguments are the
  variables it reads and writes.
\<close>

function walk :: "string \<Rightarrow> string list \<Rightarrow> string \<Rightarrow> string \<Rightarrow> world \<Rightarrow> exit \<times> world" where
  "walk domain domainPieces assembledDomain nextNs w =
     (if length domainPieces > 0 then
        (let element = domainPieces ! (length domainPieces - 1);
             domainPieces' = take (length domainPieces - 1) domainPieces;
             w1 = Print [CHR 0x0A] w;
             assembledDomain' = assemble assembledDomain element;
             w2 = Println (header assembledDomain' nextNs) w1
         in case getNsRecords assembledDomain' nextNs w2 of
              ((ns, nextNs', err), w3) \<Rightarrow>
                (case err of
                   Some e \<Rightarrow> (Fatal (''Query failed:  '' @ Error e @ [CHR 0x0A]), w3)
                 | None \<Rightarrow>
                     walk domain domainPieces' assembledDomain' nextNs'
                       (printNameservers domain assembledDomain' ns nextNs' w3)))
      else (Returned, w))"
  by pat_completeness auto
termination
  by (relation "measure (\<lambda>(domain, domainPieces, assembledDomain, nextNs, w). length domainPieces)")
    simp_all

declare walk.simps [simp del]

text \<open>
  \<open>main\<close>, given \<open>os.Args\<close> and what \<open>dns.ClientConfigFromFile\<close> returns for
  /etc/resolv.conf.
\<close>

definition main ::
  "string list \<Rightarrow> ClientConfig option \<times> error option \<Rightarrow> world \<Rightarrow> exit \<times> world" where
  "main args resolv w =
     (if length args \<noteq> 2 then
        (case args of
           [] \<Rightarrow> (Panic ''index out of range'', w)
         | prog # _ \<Rightarrow> (Fatal (prog @ '' ZONE'' @ [CHR 0x0A]), w))
      else
        (let domain = args ! 1
         in case resolv of
              (conf, err) \<Rightarrow>
                (case (err, conf) of
                   (None, Some c) \<Rightarrow>
                     (let w0 = Println ''Retrieving list of root nameservers:'' w
                      in case Servers c of
                           [] \<Rightarrow> (Panic ''index out of range'', w0)
                         | server # _ \<Rightarrow>
                             (case getNsRecords ''.'' server w0 of
                                ((rootNameservers, nextNs, err), w1) \<Rightarrow>
                                  (case err of
                                     Some e \<Rightarrow> (Fatal (''Query failed: '' @ Error e), w1)
                                   | None \<Rightarrow>
                                       walk domain (SplitDomainName domain) ''.'' nextNs
                                         (printRootNameservers rootNameservers nextNs w1))))
                 | _ \<Rightarrow>
                     (Fatal (''Cannot initialize the local resolver: ''
                             @ (case err of None \<Rightarrow> ''%!s(<nil>)'' | Some e \<Rightarrow> Error e)
                             @ [CHR 0x0A]), w))))"

subsection \<open>Notions used to state the properties\<close>

text \<open>The \<open>Ns\<close> fields of the \<open>*dns.NS\<close> records of a section, in the order of the section.\<close>

definition nsTargets :: "RR list \<Rightarrow> string list" where
  "nsTargets rrs = concat (map (\<lambda>rr. case rr of NS n \<Rightarrow> [n] | OtherRR _ \<Rightarrow> []) rrs)"

text \<open>
  The zones assembled one after the other when the labels \<open>element # rest\<close> are taken
  in this order, starting from the zone \<open>assembledDomain\<close>.
\<close>

fun zonesFrom :: "string \<Rightarrow> string list \<Rightarrow> string list" where
  "zonesFrom assembledDomain [] = []"
| "zonesFrom assembledDomain (element # rest) =
     assemble assembledDomain element # zonesFrom (assemble assembledDomain element) rest"

text \<open>Labels written one after the other, each followed by a dot.\<close>

definition joinLabels :: "string list \<Rightarrow> string" where
  "joinLabels labels = concat (map (\<lambda>l. l @ ''.'') labels)"

subsection \<open>Sample responses, networks and worlds\<close>

definition demoMsg :: Msg where
  "demoMsg = \<lparr>Rcode = RcodeSuccess,
              Answer = [NS ''b.gtld-servers.net.'', OtherRR ''A 192.0.2.1'', NS ''a.gtld-servers.net.''],
              Ns = [NS ''c.gtld-servers.net.'']\<rparr>"

definition demoWorld ::
  "(nat \<Rightarrow> string \<Rightarrow> uint16 \<Rightarrow> string \<Rightarrow> Msg option \<times> error option) \<Rightarrow> world" where
  "demoWorld n = \<lparr>net = n, sent = [], localm = ([], 0), rnd = (\<lambda>k. 7 * k + 4), drawn = 0,
                  stdout = []\<rparr>"

definition answering :: "Msg option \<times> error option \<Rightarrow>
    nat \<Rightarrow> string \<Rightarrow> uint16 \<Rightarrow> string \<Rightarrow> Msg option \<times> error option" where
  "answering x = (\<lambda>k qname qtype address. x)"

definition referralMsg :: Msg where
  "referralMsg = \<lparr>Rcode = RcodeSuccess,
                  Answer = [OtherRR ''A 192.0.2.1''],
                  Ns = [NS ''ns2.example.com.'', OtherRR ''DS'', NS ''ns1.example.com.'',
                        NS ''ns2.example.com.'']\<rparr>"

definition emptyMsg :: Msg where
  "emptyMsg = \<lparr>Rcode = RcodeNameError, Answer = [OtherRR ''CNAME''], Ns = [OtherRR ''SOA'']\<rparr>"

definition demoResolv :: "ClientConfig option \<times> error option" where
  "demoResolv = (Some \<lparr>Servers = [''192.0.2.53'', ''192.0.2.54'']\<rparr>, None)"

definition nilAtSecond :: "nat \<Rightarrow> string \<Rightarrow> uint16 \<Rightarrow> string \<Rightarrow> Msg option \<times> error option" where
  "nilAtSecond = (\<lambda>k qname qtype address. if k = 1 then (None, None) else (Some demoMsg, None))"

section \<open>Properties\<close>

subsection \<open>One query\<close>

lemma appendNs_nsTargets: "appendNs acc rrs = acc @ nsTargets rrs"
  by (induction acc rrs rule: appendNs.induct) (simp_all add: nsTargets_def)

lemma localQuery_fst:
  "fst (localQuery qname qtype server w) =
     (case net w (length (sent w)) qname qtype (server @ '':53'') of
        (r, Some e) \<Rightarrow> (None, Some e)
      | (None, None) \<Rightarrow> (None, None)
      | (Some m, None) \<Rightarrow>
          if Rcode m = RcodeNameError \<or> Rcode m = RcodeSuccess then (Some m, None)
          else (None, Some (errorString ''No name server to answer the question'')))"
  by (simp add: localQuery_def Exchange_def SetQuestion_def split: prod.splits option.splits)

lemma localQuery_snd:
  "snd (localQuery qname qtype server w) =
     w\<lparr>localm := (qname, qtype), sent := sent w @ [(qname, qtype, server @ '':53'')]\<rparr>"
  by (simp add: localQuery_def Exchange_def SetQuestion_def split: prod.splits option.splits)

lemma getNsRecords_fst:
  "fst (getNsRecords zone server w) =
     (case fst (localQuery (Fqdn zone) TypeNS server w) of
        (None, err) \<Rightarrow> ([], [], err)
      | (Some m, Some e) \<Rightarrow> ([], [], Some e)
      | (Some m, None) \<Rightarrow>
          (let raw = (if nsTargets (Answer m) = [] then nsTargets (Ns m) else nsTargets (Answer m))
           in if raw = [] then ([], [], Some (errorString (''No nameservers found for '' @ Fqdn zone)))
              else (sort raw, raw ! (rnd w (drawn w) mod length raw), None)))"
proof -
  obtain r err w1 where lq: "localQuery (Fqdn zone) TypeNS server w = ((r, err), w1)"
    by (metis surj_pair)
  from localQuery_snd [of "Fqdn zone" TypeNS server w] lq
  have "rnd w1 = rnd w" and "drawn w1 = drawn w" by simp_all
  with lq show ?thesis
    by (simp add: getNsRecords_def Let_def appendNs_nsTargets Intn_def
        split: option.splits)
qed

lemma getNsRecords_sent:
  "sent (snd (getNsRecords zone server w)) = sent w @ [(Fqdn zone, TypeNS, server @ '':53'')]"
proof -
  obtain r err w1 where lq: "localQuery (Fqdn zone) TypeNS server w = ((r, err), w1)"
    by (metis surj_pair)
  from localQuery_snd [of "Fqdn zone" TypeNS server w] lq
  have "sent w1 = sent w @ [(Fqdn zone, TypeNS, server @ '':53'')]" by simp
  with lq show ?thesis
    by (simp add: getNsRecords_def Let_def Intn_def split: option.splits)
qed

lemma getNsRecords_net: "net (snd (getNsRecords zone server w)) = net w"
proof -
  obtain r err w1 where lq: "localQuery (Fqdn zone) TypeNS server w = ((r, err), w1)"
    by (metis surj_pair)
  from localQuery_snd [of "Fqdn zone" TypeNS server w] lq
  have "net w1 = net w" by simp
  with lq show ?thesis
    by (simp add: getNsRecords_def Let_def Intn_def split: option.splits)
qed

lemma getNsRecords_extracted:
  assumes "fst (localQuery (Fqdn zone) TypeNS server w) = (Some m, None)"
    and "raw = (if nsTargets (Answer m) = [] then nsTargets (Ns m) else nsTargets (Answer m))"
    and "raw \<noteq> []"
  shows "fst (getNsRecords zone server w) =
           (sort raw, raw ! (rnd w (drawn w) mod length raw), None)"
  using assms by (simp add: getNsRecords_fst Let_def)

subsection \<open>Fully qualified names\<close>


lemma IsFqdn_dot_appended: "x = [] \<or> last x \<noteq> CHR 0x5C \<Longrightarrow> IsFqdn (x @ ''.'')"
  by (auto simp: IsFqdn_def last_conv_nth)

lemma Fqdn_id: "IsFqdn s \<Longrightarrow> Fqdn s = s"
  by (simp add: Fqdn_def)

subsection \<open>A trailing dot does not change the labels\<close>








subsection \<open>The loop and the whole run\<close>

lemma Print_fields [simp]:
  "net (Print s w) = net w" "sent (Print s w) = sent w" "rnd (Print s w) = rnd w"
  "drawn (Print s w) = drawn w" "localm (Print s w) = localm w"
  by (simp_all add: Print_def)

lemma Println_fields [simp]:
  "net (Println s w) = net w" "sent (Println s w) = sent w" "rnd (Println s w) = rnd w"
  "drawn (Println s w) = drawn w" "localm (Println s w) = localm w"
  by (simp_all add: Println_def)

lemma printRootNameservers_fields [simp]:
  "net (printRootNameservers l n w) = net w" "sent (printRootNameservers l n w) = sent w"
  "rnd (printRootNameservers l n w) = rnd w" "drawn (printRootNameservers l n w) = drawn w"
  by (induction l n w rule: printRootNameservers.induct) simp_all

lemma printNameservers_fields [simp]:
  "net (printNameservers d z l n w) = net w" "sent (printNameservers d z l n w) = sent w"
  "rnd (printNameservers d z l n w) = rnd w" "drawn (printNameservers d z l n w) = drawn w"
  by (induction d z l n w rule: printNameservers.induct) simp_all

lemma walk_Nil: "walk d [] acc ns w = (Returned, w)"
  by (simp add: walk.simps)

lemma walk_snoc:
  "walk d (ps @ [p]) acc ns w =
     (case getNsRecords (assemble acc p) ns
             (Println (header (assemble acc p) ns) (Print [CHR 0x0A] w)) of
        ((l, n', err), w3) \<Rightarrow>
          (case err of
             Some e \<Rightarrow> (Fatal (''Query failed:  '' @ Error e @ [CHR 0x0A]), w3)
           | None \<Rightarrow> walk d ps (assemble acc p) n'
                       (printNameservers d (assemble acc p) l n' w3)))"
  by (subst walk.simps) (simp add: Let_def)

lemma walk_sent:
  "walk d ps acc ns w = (ex, w') \<Longrightarrow>
   (\<exists>k \<le> length ps.
      map fst (sent w') = map fst (sent w) @ take k (map Fqdn (zonesFrom acc (rev ps)))
      \<and> (ex = Returned \<longrightarrow> k = length ps))"
proof (induction ps arbitrary: acc ns w rule: rev_induct)
  case Nil
  then show ?case by (simp add: walk_Nil)
next
  case (snoc p ps)
  let ?z = "assemble acc p"
  let ?w2 = "Println (header ?z ns) (Print [CHR 0x0A] w)"
  obtain l n' err w3 where g: "getNsRecords ?z ns ?w2 = ((l, n', err), w3)"
    by (metis surj_pair)
  from getNsRecords_sent [of ?z ns ?w2] g
  have s3: "map fst (sent w3) = map fst (sent w) @ [Fqdn ?z]"
    by simp
  show ?case
  proof (cases err)
    case (Some e)
    with g snoc.prems have "w' = w3" "ex \<noteq> Returned"
      by (auto simp: walk_snoc)
    with s3 have "map fst (sent w') =
        map fst (sent w) @ take 1 (map Fqdn (zonesFrom acc (rev (ps @ [p]))))"
      by simp
    with \<open>ex \<noteq> Returned\<close> show ?thesis
      by (intro exI [of _ 1]) simp
  next
    case None
    let ?w4 = "printNameservers d ?z l n' w3"
    from None g snoc.prems have "walk d ps ?z n' ?w4 = (ex, w')"
      by (simp add: walk_snoc)
    from snoc.IH [OF this] obtain k where k: "k \<le> length ps"
      "map fst (sent w') = map fst (sent ?w4) @ take k (map Fqdn (zonesFrom ?z (rev ps)))"
      "ex = Returned \<longrightarrow> k = length ps" by blast
    with s3 have "map fst (sent w') =
        map fst (sent w) @ take (Suc k) (map Fqdn (zonesFrom acc (rev (ps @ [p]))))"
      by simp
    with k(1,3) show ?thesis
      by (intro exI [of _ "Suc k"]) simp
  qed
qed

lemma length_zonesFrom [simp]: "length (zonesFrom acc es) = length es"
  by (induction es arbitrary: acc) simp_all



lemma main_run:
  "main [prog, domain] (Some c, None) w =
     (case Servers c of
        [] \<Rightarrow> (Panic ''index out of range'', Println ''Retrieving list of root nameservers:'' w)
      | server # _ \<Rightarrow>
          (case getNsRecords ''.'' server (Println ''Retrieving list of root nameservers:'' w) of
             ((l, n, err), w1) \<Rightarrow>
               (case err of
                  Some e \<Rightarrow> (Fatal (''Query failed: '' @ Error e), w1)
                | None \<Rightarrow> walk domain (SplitDomainName domain) ''.'' n
                            (printRootNameservers l n w1))))"
  by (simp add: main_def Let_def)

lemma main_no_conf:
  "err \<noteq> None \<or> conf = None \<Longrightarrow>
   main [prog, domain] (conf, err) w =
     (Fatal (''Cannot initialize the local resolver: ''
             @ (case err of None \<Rightarrow> ''%!s(<nil>)'' | Some e \<Rightarrow> Error e) @ [CHR 0x0A]), w)"
  by (auto simp: main_def Let_def split: option.splits)


lemma Fqdn_root: "Fqdn ''.'' = ''.''"
  by (simp add: Fqdn_def IsFqdn_def)

lemma main_sent:
  assumes "main [prog, domain] resolv w = (ex, w')"
  shows "\<exists>k \<le> length (SplitDomainName domain) + 1.
           map fst (sent w') =
             map fst (sent w) @
               take k (map Fqdn (''.'' # zonesFrom ''.'' (rev (SplitDomainName domain))))
           \<and> (ex = Returned \<longrightarrow> k = length (SplitDomainName domain) + 1)"
proof -
  let ?Z = "map Fqdn (''.'' # zonesFrom ''.'' (rev (SplitDomainName domain)))"
  let ?w0 = "Println ''Retrieving list of root nameservers:'' w"
  obtain conf err where r: "resolv = (conf, err)" by (cases resolv)
  have stop: "w' = w0 \<Longrightarrow> sent w0 = sent w \<Longrightarrow> ex \<noteq> Returned \<Longrightarrow> ?thesis" for w0
    by (intro exI [of _ 0]) simp
  show ?thesis
  proof (cases "err \<noteq> None \<or> conf = None")
    case True
    from assms main_no_conf [OF True, of prog domain w] have "w' = w" "ex \<noteq> Returned"
      by (auto simp: r)
    then show ?thesis by (intro stop [of w]) simp_all
  next
    case False
    then obtain c where c: "conf = Some c" "err = None" by auto
    note run = assms [unfolded r c main_run]
    show ?thesis
    proof (cases "Servers c")
      case Nil
      with run have "w' = ?w0" "ex \<noteq> Returned" by auto
      then show ?thesis by (intro stop [of ?w0]) simp_all
    next
      case (Cons server rest)
      obtain l n e1 w1 where g: "getNsRecords ''.'' server ?w0 = ((l, n, e1), w1)"
        by (metis surj_pair)
      from getNsRecords_sent [of "''.''" server ?w0] g
      have s1: "map fst (sent w1) = map fst (sent w) @ [Fqdn ''.'']"
        by simp
      show ?thesis
      proof (cases e1)
        case (Some e)
        with run Cons g have "w' = w1" "ex \<noteq> Returned" by auto
        with s1 have "map fst (sent w') = map fst (sent w) @ take 1 ?Z" by simp
        with \<open>ex \<noteq> Returned\<close> show ?thesis by (intro exI [of _ 1]) simp
      next
        case None
        let ?w2 = "printRootNameservers l n w1"
        from None run Cons g
        have "walk domain (SplitDomainName domain) ''.'' n ?w2 = (ex, w')" by simp
        then obtain k where k: "k \<le> length (SplitDomainName domain)"
          "map fst (sent w') = map fst (sent ?w2) @
             take k (map Fqdn (zonesFrom ''.'' (rev (SplitDomainName domain))))"
          "ex = Returned \<longrightarrow> k = length (SplitDomainName domain)"
          using walk_sent by blast
        with s1 have "map fst (sent w') = map fst (sent w) @ take (Suc k) ?Z" by simp
        with k(1,3) show ?thesis by (intro exI [of _ "Suc k"]) simp
      qed
    qed
  qed
qed

lemma walk_qtype:
  "walk d ps acc ns w = (ex, w') \<Longrightarrow>
   \<exists>qs. sent w' = sent w @ qs \<and> (\<forall>q \<in> set qs. fst (snd q) = TypeNS)"
proof (induction ps arbitrary: acc ns w rule: rev_induct)
  case Nil
  then show ?case by (simp add: walk_Nil)
next
  case (snoc p ps)
  let ?z = "assemble acc p"
  let ?w2 = "Println (header ?z ns) (Print [CHR 0x0A] w)"
  obtain l n' err w3 where g: "getNsRecords ?z ns ?w2 = ((l, n', err), w3)"
    by (metis surj_pair)
  from getNsRecords_sent [of ?z ns ?w2] g
  have s3: "sent w3 = sent w @ [(Fqdn ?z, TypeNS, ns @ '':53'')]" by simp
  show ?case
  proof (cases err)
    case (Some e)
    with g snoc.prems have "w' = w3" by (auto simp: walk_snoc)
    with s3 show ?thesis by simp
  next
    case None
    let ?w4 = "printNameservers d ?z l n' w3"
    from None g snoc.prems have "walk d ps ?z n' ?w4 = (ex, w')"
      by (simp add: walk_snoc)
    from snoc.IH [OF this] obtain qs where "sent w' = sent ?w4 @ qs"
      "\<forall>q \<in> set qs. fst (snd q) = TypeNS" by blast
    with s3 have "sent w' = sent w @ ((Fqdn ?z, TypeNS, ns @ '':53'') # qs) \<and>
        (\<forall>q \<in> set ((Fqdn ?z, TypeNS, ns @ '':53'') # qs). fst (snd q) = TypeNS)"
      by simp
    then show ?thesis by blast
  qed
qed

lemma main_qtype:
  assumes "main [prog, domain] resolv w = (ex, w')"
  shows "\<exists>qs. sent w' = sent w @ qs \<and> (\<forall>q \<in> set qs. fst (snd q) = TypeNS)"
proof -
  let ?w0 = "Println ''Retrieving list of root nameservers:'' w"
  obtain conf err where r: "resolv = (conf, err)" by (cases resolv)
  show ?thesis
  proof (cases "err \<noteq> None \<or> conf = None")
    case True
    from assms main_no_conf [OF True, of prog domain w] have "w' = w" by (auto simp: r)
    then show ?thesis by simp
  next
    case False
    then obtain c where c: "conf = Some c" "err = None" by auto
    note run = assms [unfolded r c main_run]
    show ?thesis
    proof (cases "Servers c")
      case Nil
      with run have "w' = ?w0" by auto
      then show ?thesis by simp
    next
      case (Cons server rest)
      obtain l n e1 w1 where g: "getNsRecords ''.'' server ?w0 = ((l, n, e1), w1)"
        by (metis surj_pair)
      from getNsRecords_sent [of "''.''" server ?w0] g
      have s1: "sent w1 = sent w @ [(Fqdn ''.'', TypeNS, server @ '':53'')]" by simp
      show ?thesis
      proof (cases e1)
        case (Some e)
        with run Cons g have "w' = w1" by auto
        with s1 show ?thesis by simp
      next
        case None
        let ?w2 = "printRootNameservers l n w1"
        from None run Cons g
        have "walk domain (SplitDomainName domain) ''.'' n ?w2 = (ex, w')" by simp
        from walk_qtype [OF this] obtain qs where "sent w' = sent ?w2 @ qs"
          "\<forall>q \<in> set qs. fst (snd q) = TypeNS" by blast
        with s1 have "sent w' = sent w @ ((Fqdn ''.'', TypeNS, server @ '':53'') # qs) \<and>
            (\<forall>q \<in> set ((Fqdn ''.'', TypeNS, server @ '':53'') # qs). fst (snd q) = TypeNS)"
          by simp
        then show ?thesis by blast
      qed
    qed
  qed
qed

subsection \<open>The zones in terms of the labels\<close>

lemma joinLabels_Cons: "joinLabels (l # ls) = l @ ''.'' @ joinLabels ls"
  by (simp add: joinLabels_def)

lemma joinLabels_not_root:
  assumes "ls \<noteq> []" and "[] \<notin> set ls"
  shows "joinLabels ls \<noteq> ''.''"
proof (cases ls)
  case Nil
  with assms(1) show ?thesis by simp
next
  case (Cons l rest)
  with assms have "l \<noteq> []" by auto
  then have "1 < length (joinLabels ls)" by (cases l) (simp_all add: Cons joinLabels_Cons)
  then show ?thesis by auto
qed

lemma assemble_join:
  "[] \<notin> set suf \<Longrightarrow> acc = (if suf = [] then ''.'' else joinLabels suf) \<Longrightarrow>
   assemble acc e = joinLabels (e # suf)"
  by (auto simp: assemble_def joinLabels_Cons joinLabels_not_root) (simp add: joinLabels_def)

lemma zonesFrom_join:
  "[] \<notin> set es \<Longrightarrow> [] \<notin> set suf \<Longrightarrow> acc = (if suf = [] then ''.'' else joinLabels suf) \<Longrightarrow>
   zonesFrom acc es = map (\<lambda>k. joinLabels (rev (take k es) @ suf)) [1..<length es + 1]"
proof (induction es arbitrary: acc suf)
  case Nil
  show ?case by simp
next
  case (Cons e es)
  have a: "assemble acc e = joinLabels (e # suf)"
    using Cons.prems(2,3) by (rule assemble_join)
  from Cons.prems have "zonesFrom (joinLabels (e # suf)) es =
      map (\<lambda>k. joinLabels (rev (take k es) @ e # suf)) [1..<length es + 1]"
    by (intro Cons.IH) auto
  moreover have "[1..<length (e # es) + 1] = 1 # map Suc [1..<length es + 1]"
    by (simp add: upt_conv_Cons map_Suc_upt del: upt_Suc)
  ultimately show ?case by (simp add: a comp_def)
qed

lemma zonesFrom_labels:
  assumes "[] \<notin> set labels"
  shows "zonesFrom ''.'' (rev labels) =
           map (\<lambda>k. joinLabels (drop (length labels - k) labels)) [1..<length labels + 1]"
proof -
  from assms have "zonesFrom ''.'' (rev labels) =
      map (\<lambda>k. joinLabels (rev (take k (rev labels)) @ [])) [1..<length (rev labels) + 1]"
    by (intro zonesFrom_join) simp_all
  then show ?thesis by (simp add: rev_take)
qed

lemma Fqdn_joinLabels:
  assumes "ls \<noteq> []" and "last ls \<noteq> []" and "last (last ls) \<noteq> CHR 0x5C"
  shows "Fqdn (joinLabels ls) = joinLabels ls"
proof -
  from assms(1) have "ls = butlast ls @ [last ls]" by simp
  then have "joinLabels ls = joinLabels (butlast ls @ [last ls])" by simp
  then have j: "joinLabels ls = (joinLabels (butlast ls) @ last ls) @ ''.''"
    by (simp add: joinLabels_def)
  from assms(2,3) have "last (joinLabels (butlast ls) @ last ls) \<noteq> CHR 0x5C"
    by simp
  then have "IsFqdn ((joinLabels (butlast ls) @ last ls) @ ''.'')"
    by (intro IsFqdn_dot_appended disjI2)
  then have "IsFqdn (joinLabels ls)" by (simp only: j)
  then show ?thesis by (rule Fqdn_id)
qed

lemma zones_of_valid_labels:
  assumes "[] \<notin> set labels" and "labels \<noteq> [] \<longrightarrow> last (last labels) \<noteq> CHR 0x5C"
  shows "map Fqdn (''.'' # zonesFrom ''.'' (rev labels)) =
           ''.'' # map (\<lambda>k. joinLabels (drop (length labels - k) labels))
                       [1..<length labels + 1]"
proof -
  have "Fqdn (joinLabels (drop (length labels - k) labels)) =
          joinLabels (drop (length labels - k) labels)"
    if "k \<in> set [1..<length labels + 1]" for k
  proof -
    from that have k: "1 \<le> k" "k \<le> length labels" by auto
    then have ne: "drop (length labels - k) labels \<noteq> []" by auto
    then have l: "last (drop (length labels - k) labels) = last labels" by simp
    from k have n: "labels \<noteq> []" by auto
    then have "last labels \<in> set labels" by simp
    with assms(1) have "last labels \<noteq> []" by metis
    moreover from n assms(2) have "last (last labels) \<noteq> CHR 0x5C" by simp
    ultimately have "last (drop (length labels - k) labels) \<noteq> []"
      "last (last (drop (length labels - k) labels)) \<noteq> CHR 0x5C"
      by (simp_all only: l simp_thms)
    with ne show ?thesis by (rule Fqdn_joinLabels)
  qed
  then have "map Fqdn (map (\<lambda>k. joinLabels (drop (length labels - k) labels))
                          [1..<length labels + 1]) =
             map (\<lambda>k. joinLabels (drop (length labels - k) labels)) [1..<length labels + 1]"
    by (simp only: map_map comp_def cong: map_cong)
  with zonesFrom_labels [OF assms(1)] show ?thesis
    by (simp add: Fqdn_root)
qed

section \<open>The claims of the specification\<close>

text \<open>
  C1. A run of the walker on a target domain with \<open>n\<close> labels that reaches its end
  has made exactly \<open>n + 1\<close> exchanges, each the one NS query of a call of
  \<open>getNsRecords\<close>: the first for the root zone \<open>.\<close>, then one per label, the labels
  taken from the last one (the top-level domain) to the first, each put in front of
  the zone assembled so far; the name queried is what \<open>dns.Fqdn\<close> makes of that
  zone. A run stopped by a fatal error has made the first \<open>k\<close> of these queries and
  no other. For a valid domain, where no label is empty and the last label does not
  end in a backslash, every assembled zone is fully qualified as it is, and the zone
  of the \<open>k\<close>-th of the per-label queries is made of the last \<open>k\<close> labels.
\<close>

theorem walker_query_steps:
  assumes "main [prog, domain] resolv w = (ex, w')"
    and "labels = SplitDomainName domain"
    and "queried = drop (length (sent w)) (map fst (sent w'))"
  shows "(\<exists>k \<le> length labels + 1.
            queried = take k (map Fqdn (''.'' # zonesFrom ''.'' (rev labels)))) \<and>
         (ex = Returned \<longrightarrow>
            length queried = length labels + 1 \<and>
            length (sent w') = length (sent w) + (length labels + 1) \<and>
            queried = map Fqdn (''.'' # zonesFrom ''.'' (rev labels))) \<and>
         (\<forall>q \<in> set (drop (length (sent w)) (sent w')). fst (snd q) = TypeNS) \<and>
         ([] \<notin> set labels \<and> (labels \<noteq> [] \<longrightarrow> last (last labels) \<noteq> CHR 0x5C) \<longrightarrow>
            map Fqdn (''.'' # zonesFrom ''.'' (rev labels)) =
              ''.'' # map (\<lambda>k. joinLabels (drop (length labels - k) labels))
                          [1..<length labels + 1])"
proof -
  let ?Z = "map Fqdn (''.'' # zonesFrom ''.'' (rev labels))"
  from main_qtype [OF assms(1)]
  have c: "\<forall>q \<in> set (drop (length (sent w)) (sent w')). fst (snd q) = TypeNS"
    by auto
  from main_sent [OF assms(1)] obtain k where k: "k \<le> length labels + 1"
    "map fst (sent w') = map fst (sent w) @ take k ?Z"
    "ex = Returned \<longrightarrow> k = length labels + 1"
    unfolding assms(2) by blast
  from k(2) have q: "queried = take k ?Z"
    by (simp add: assms(3))
  from k(2) have "length (map fst (sent w')) = length (map fst (sent w) @ take k ?Z)"
    by simp
  with k(1) have len: "length (sent w') = length (sent w) + k" by simp
  from q k(1) have a: "\<exists>k \<le> length labels + 1. queried = take k ?Z"
    by blast
  from q k(3) len have b: "ex = Returned \<longrightarrow>
            length queried = length labels + 1 \<and>
            length (sent w') = length (sent w) + (length labels + 1) \<and>
            queried = ?Z"
    by simp
  have d: "[] \<notin> set labels \<and> (labels \<noteq> [] \<longrightarrow> last (last labels) \<noteq> CHR 0x5C) \<longrightarrow>
            ?Z = ''.'' # map (\<lambda>k. joinLabels (drop (length labels - k) labels))
                          [1..<length labels + 1]"
    using zones_of_valid_labels [of labels] by blast
  from a b c d show ?thesis by blast
qed

theorem walker_query_steps_witness:
  "fst (main [''zone-nameservers'', ''www.example.com''] demoResolv
          (demoWorld (answering (Some demoMsg, None)))) = Returned \<and>
   SplitDomainName ''www.example.com'' = [''www'', ''example'', ''com''] \<and>
   [] \<notin> set (SplitDomainName ''www.example.com'') \<and>
   last (last (SplitDomainName ''www.example.com'')) \<noteq> CHR 0x5C \<and>
   length (sent (snd (main [''zone-nameservers'', ''www.example.com''] demoResolv
                        (demoWorld (answering (Some demoMsg, None)))))) = 3 + 1 \<and>
   map fst (sent (snd (main [''zone-nameservers'', ''www.example.com''] demoResolv
                         (demoWorld (answering (Some demoMsg, None))))))
     = [''.'', ''com.'', ''example.com.'', ''www.example.com.'']"
proof -
  let ?w = "demoWorld (answering (Some demoMsg, None))"
  let ?run = "main [''zone-nameservers'', ''www.example.com''] demoResolv ?w"
  have ex: "fst ?run = Returned" by code_simp
  then have h1: "?run = (Returned, snd ?run)" by (simp add: prod_eq_iff)
  have h2: "SplitDomainName ''www.example.com'' = [''www'', ''example'', ''com'']" by code_simp
  have s0: "sent ?w = []" by (simp add: demoWorld_def)
  have z: "map Fqdn (''.'' # zonesFrom ''.'' (rev [''www'', ''example'', ''com''])) =
           [''.'', ''com.'', ''example.com.'', ''www.example.com.'']"
    by code_simp
  from walker_query_steps [OF h1 h2 [symmetric] refl]
  have "length (sent (snd ?run)) = length (sent ?w) + (length [''www'', ''example'', ''com''] + 1)"
    and "drop (length (sent ?w)) (map fst (sent (snd ?run))) =
           map Fqdn (''.'' # zonesFrom ''.'' (rev [''www'', ''example'', ''com'']))"
    by blast+
  then have "length (sent (snd ?run)) = 3 + 1"
    "map fst (sent (snd ?run)) = [''.'', ''com.'', ''example.com.'', ''www.example.com.'']"
    unfolding z s0 by simp_all
  with ex h2 show ?thesis by simp
qed

text \<open>
  C2. When the response that \<open>getNsRecords\<close> obtained has at least one NS record in
  its answer section, the list returned holds the targets of the NS records of the
  answer section (sorted), the nameserver selected is one of them, and the result is
  the same whatever the authority section contains.
\<close>

theorem answer_section_first:
  assumes "fst (localQuery (Fqdn zone) TypeNS server w) = (Some m, None)"
    and "0 < length (nsTargets (Answer m))"
  shows "fst (fst (getNsRecords zone server w)) = sort (nsTargets (Answer m)) \<and>
         fst (snd (fst (getNsRecords zone server w))) \<in> set (nsTargets (Answer m)) \<and>
         (\<forall>authority w'.
            fst (localQuery (Fqdn zone) TypeNS server w') = (Some (m\<lparr>Ns := authority\<rparr>), None) \<and>
            rnd w' (drawn w') = rnd w (drawn w) \<longrightarrow>
            fst (getNsRecords zone server w') = fst (getNsRecords zone server w))"
proof -
  let ?raw = "nsTargets (Answer m)"
  from assms(2) have ne: "?raw \<noteq> []" by simp
  have a: "fst (getNsRecords zone server w) =
             (sort ?raw, ?raw ! (rnd w (drawn w) mod length ?raw), None)"
    using assms(1) _ ne by (rule getNsRecords_extracted) (simp add: ne)
  have b: "fst (getNsRecords zone server w') =
             (sort ?raw, ?raw ! (rnd w' (drawn w') mod length ?raw), None)"
    if "fst (localQuery (Fqdn zone) TypeNS server w') = (Some (m\<lparr>Ns := authority\<rparr>), None)"
    for authority w'
    using that _ ne by (rule getNsRecords_extracted) (simp add: ne)
  from ne have "?raw ! (rnd w (drawn w) mod length ?raw) \<in> set ?raw" by simp
  with a b show ?thesis by simp
qed

theorem answer_section_first_witness:
  "fst (localQuery (Fqdn ''com'') TypeNS ''192.0.2.53'' (demoWorld (answering (Some demoMsg, None))))
     = (Some demoMsg, None) \<and>
   0 < length (nsTargets (Answer demoMsg)) \<and>
   fst (fst (getNsRecords ''com'' ''192.0.2.53'' (demoWorld (answering (Some demoMsg, None)))))
     = [''a.gtld-servers.net.'', ''b.gtld-servers.net.''] \<and>
   fst (getNsRecords ''com'' ''192.0.2.53''
          (demoWorld (answering (Some (demoMsg\<lparr>Ns := [NS ''z.example.'']\<rparr>), None))))
     = fst (getNsRecords ''com'' ''192.0.2.53'' (demoWorld (answering (Some demoMsg, None))))"
proof -
  let ?w = "demoWorld (answering (Some demoMsg, None))"
  let ?w' = "demoWorld (answering (Some (demoMsg\<lparr>Ns := [NS ''z.example.'']\<rparr>), None))"
  have h1: "fst (localQuery (Fqdn ''com'') TypeNS ''192.0.2.53'' ?w) = (Some demoMsg, None)"
    by (simp add: localQuery_fst demoWorld_def answering_def demoMsg_def RcodeSuccess_def)
  have h2: "0 < length (nsTargets (Answer demoMsg))"
    by (simp add: demoMsg_def nsTargets_def)
  have h3: "fst (localQuery (Fqdn ''com'') TypeNS ''192.0.2.53'' ?w')
              = (Some (demoMsg\<lparr>Ns := [NS ''z.example.'']\<rparr>), None)"
    by (simp add: localQuery_fst demoWorld_def answering_def demoMsg_def RcodeSuccess_def)
  have h4: "rnd ?w' (drawn ?w') = rnd ?w (drawn ?w)"
    by (simp add: demoWorld_def)
  have v: "sort (nsTargets (Answer demoMsg)) = [''a.gtld-servers.net.'', ''b.gtld-servers.net.'']"
    by (simp add: demoMsg_def nsTargets_def)
  from answer_section_first [OF h1 h2] h1 h2 h3 h4 v show ?thesis by simp
qed

text \<open>
  C3. When the answer section has no NS record and the authority section has
  \<open>m > 0\<close> of them, the list returned consists of exactly the \<open>m\<close> targets of the
  authority section: the same elements, as often, and no error.
\<close>

theorem authority_section_fallback:
  assumes "fst (localQuery (Fqdn zone) TypeNS server w) = (Some m, None)"
    and "length (nsTargets (Answer m)) = 0"
    and "0 < length (nsTargets (Ns m))"
  shows "set (fst (fst (getNsRecords zone server w))) = set (nsTargets (Ns m)) \<and>
         mset (fst (fst (getNsRecords zone server w))) = mset (nsTargets (Ns m)) \<and>
         length (fst (fst (getNsRecords zone server w))) = length (nsTargets (Ns m)) \<and>
         snd (snd (fst (getNsRecords zone server w))) = None"
proof -
  let ?raw = "nsTargets (Ns m)"
  from assms(3) have ne: "?raw \<noteq> []" by simp
  have "fst (getNsRecords zone server w) =
          (sort ?raw, ?raw ! (rnd w (drawn w) mod length ?raw), None)"
    using assms(1) _ ne by (rule getNsRecords_extracted) (use assms(2) in simp)
  then show ?thesis by simp
qed

theorem authority_section_fallback_witness:
  "fst (localQuery (Fqdn ''example.com.'') TypeNS ''a.gtld-servers.net.''
          (demoWorld (answering (Some referralMsg, None)))) = (Some referralMsg, None) \<and>
   length (nsTargets (Answer referralMsg)) = 0 \<and>
   0 < length (nsTargets (Ns referralMsg)) \<and>
   set (fst (fst (getNsRecords ''example.com.'' ''a.gtld-servers.net.''
                    (demoWorld (answering (Some referralMsg, None))))))
     = {''ns1.example.com.'', ''ns2.example.com.''}"
proof -
  let ?w = "demoWorld (answering (Some referralMsg, None))"
  have h1: "fst (localQuery (Fqdn ''example.com.'') TypeNS ''a.gtld-servers.net.'' ?w)
              = (Some referralMsg, None)"
    by (simp add: localQuery_fst demoWorld_def answering_def referralMsg_def RcodeSuccess_def)
  have h2: "length (nsTargets (Answer referralMsg)) = 0"
    by (simp add: referralMsg_def nsTargets_def)
  have h3: "0 < length (nsTargets (Ns referralMsg))"
    by (simp add: referralMsg_def nsTargets_def)
  have v: "set (nsTargets (Ns referralMsg)) = {''ns1.example.com.'', ''ns2.example.com.''}"
    by (auto simp: referralMsg_def nsTargets_def)
  from authority_section_fallback [OF h1 h2 h3] h1 h2 h3 v show ?thesis by simp
qed

text \<open>
  C4. When neither the answer section nor the authority section of the response has
  an NS record, \<open>getNsRecords\<close> returns the error \<open>No nameservers found for Z\<close>,
  \<open>Z\<close> being the fully qualified zone that was queried, with an empty list and an
  empty selected server.
\<close>

theorem no_nameservers_error:
  assumes "fst (localQuery (Fqdn zone) TypeNS server w) = (Some m, None)"
    and "length (nsTargets (Answer m)) = 0"
    and "length (nsTargets (Ns m)) = 0"
  shows "fst (getNsRecords zone server w) =
           ([], [], Some (errorString (''No nameservers found for '' @ Fqdn zone)))"
  using assms by (simp add: getNsRecords_fst)

theorem no_nameservers_error_witness:
  "fst (localQuery (Fqdn ''nowhere.example'') TypeNS ''ns1.example.com.''
          (demoWorld (answering (Some emptyMsg, None)))) = (Some emptyMsg, None) \<and>
   length (nsTargets (Answer emptyMsg)) = 0 \<and>
   length (nsTargets (Ns emptyMsg)) = 0 \<and>
   fst (getNsRecords ''nowhere.example'' ''ns1.example.com.''
          (demoWorld (answering (Some emptyMsg, None))))
     = ([], [], Some (errorString ''No nameservers found for nowhere.example.''))"
proof -
  let ?w = "demoWorld (answering (Some emptyMsg, None))"
  have h1: "fst (localQuery (Fqdn ''nowhere.example'') TypeNS ''ns1.example.com.'' ?w)
              = (Some emptyMsg, None)"
    by (simp add: localQuery_fst demoWorld_def answering_def emptyMsg_def RcodeNameError_def)
  have h2: "length (nsTargets (Answer emptyMsg)) = 0"
    by (simp add: emptyMsg_def nsTargets_def)
  have h3: "length (nsTargets (Ns emptyMsg)) = 0"
    by (simp add: emptyMsg_def nsTargets_def)
  have v: "Fqdn ''nowhere.example'' = ''nowhere.example.''"
    by (simp add: Fqdn_def IsFqdn_def)
  from no_nameservers_error [OF h1 h2 h3] h1 h2 h3 v show ?thesis by simp
qed

text \<open>
  C5, as amended. \<open>localQuery\<close> returns a response and no error exactly when the
  exchange gave a response and no error and the status of the response is name error
  or success. A response with any other status gives the error
  \<open>No name server to answer the question\<close> and no response; an error of the
  exchange is returned as it is, with no response.
\<close>

theorem localQuery_outcome:
  "((\<exists>m. fst (localQuery qname qtype server w) = (Some m, None)) \<longleftrightarrow>
      (\<exists>m. net w (length (sent w)) qname qtype (server @ '':53'') = (Some m, None) \<and>
           (Rcode m = RcodeNameError \<or> Rcode m = RcodeSuccess))) \<and>
   (\<forall>m. net w (length (sent w)) qname qtype (server @ '':53'') = (Some m, None) \<longrightarrow>
        fst (localQuery qname qtype server w) =
          (if Rcode m = RcodeNameError \<or> Rcode m = RcodeSuccess then (Some m, None)
           else (None, Some (errorString ''No name server to answer the question'')))) \<and>
   (\<forall>r e. net w (length (sent w)) qname qtype (server @ '':53'') = (r, Some e) \<longrightarrow>
        fst (localQuery qname qtype server w) = (None, Some e))"
  by (auto simp: localQuery_fst split: prod.splits option.splits)

theorem localQuery_outcome_witness:
  "fst (localQuery ''com.'' TypeNS ''192.0.2.53'' (demoWorld (answering (Some demoMsg, None))))
     = (Some demoMsg, None) \<and>
   fst (localQuery ''com.'' TypeNS ''192.0.2.53''
          (demoWorld (answering (Some (demoMsg\<lparr>Rcode := 2\<rparr>), None))))
     = (None, Some (errorString ''No name server to answer the question'')) \<and>
   fst (localQuery ''com.'' TypeNS ''192.0.2.53''
          (demoWorld (answering (Some demoMsg, Some (errorString ''i/o timeout'')))))
     = (None, Some (errorString ''i/o timeout''))"
  using
    localQuery_outcome [of "''com.''" TypeNS "''192.0.2.53''" "demoWorld (answering (Some demoMsg, None))"]
    localQuery_outcome [of "''com.''" TypeNS "''192.0.2.53''"
      "demoWorld (answering (Some (demoMsg\<lparr>Rcode := 2\<rparr>), None))"]
    localQuery_outcome [of "''com.''" TypeNS "''192.0.2.53''"
      "demoWorld (answering (Some demoMsg, Some (errorString ''i/o timeout'')))"]
  by (simp add: demoWorld_def answering_def demoMsg_def RcodeSuccess_def RcodeNameError_def)

text \<open>
  C5 as stated fails in the text of the error: for a response with status 2 (server
  failure) the error returned reads \<open>No name server to answer the question\<close>, not
  \<open>no nameserver answered the question\<close>.
\<close>

theorem localQuery_error_text_counterexample:
  "fst (localQuery ''com.'' TypeNS ''192.0.2.53''
          (demoWorld (answering (Some (demoMsg\<lparr>Rcode := 2\<rparr>), None))))
     = (None, Some (errorString ''No name server to answer the question'')) \<and>
   fst (localQuery ''com.'' TypeNS ''192.0.2.53''
          (demoWorld (answering (Some (demoMsg\<lparr>Rcode := 2\<rparr>), None))))
     \<noteq> (None, Some (errorString ''no nameserver answered the question''))"
  by (simp add: localQuery_fst demoWorld_def answering_def demoMsg_def
      RcodeSuccess_def RcodeNameError_def)

text \<open>
  C6. For the target domain \<open>www.example.com\<close> a run that reaches its end has
  queried the zones \<open>.\<close>, \<open>com.\<close>, \<open>example.com.\<close>, \<open>www.example.com.\<close>, in this
  order; a run stopped by a fatal error has queried the first \<open>k\<close> of them. Each zone
  is the next label put in front of the zone before it.
\<close>

theorem www_example_com_zones:
  assumes "main [prog, ''www.example.com''] resolv w = (ex, w')"
    and "queried = drop (length (sent w)) (map fst (sent w'))"
  shows "(\<exists>k \<le> 4. queried = take k [''.'', ''com.'', ''example.com.'', ''www.example.com.'']) \<and>
         (ex = Returned \<longrightarrow> queried = [''.'', ''com.'', ''example.com.'', ''www.example.com.'']) \<and>
         ''com.'' = assemble ''.'' ''com'' \<and>
         ''example.com.'' = assemble ''com.'' ''example'' \<and>
         ''www.example.com.'' = assemble ''example.com.'' ''www''"
proof -
  have l: "SplitDomainName ''www.example.com'' = [''www'', ''example'', ''com'']" by code_simp
  have z: "map Fqdn (''.'' # zonesFrom ''.'' (rev [''www'', ''example'', ''com''])) =
           [''.'', ''com.'', ''example.com.'', ''www.example.com.'']"
    by code_simp
  from main_sent [OF assms(1)] obtain k where k0: "k \<le> length (SplitDomainName ''www.example.com'') + 1"
    and k1: "map fst (sent w') = map fst (sent w) @
               take k (map Fqdn (''.'' # zonesFrom ''.'' (rev (SplitDomainName ''www.example.com''))))"
    and k2: "ex = Returned \<longrightarrow> k = length (SplitDomainName ''www.example.com'') + 1"
    by blast
  from k0 k1 k2 have k: "k \<le> 4"
    "map fst (sent w') = map fst (sent w) @ take k [''.'', ''com.'', ''example.com.'', ''www.example.com.'']"
    "ex = Returned \<longrightarrow> k = 4"
    unfolding l z by simp_all
  from k(2) have q: "queried = take k [''.'', ''com.'', ''example.com.'', ''www.example.com.'']"
    by (simp add: assms(2))
  with k(1) have a: "\<exists>k \<le> 4. queried = take k [''.'', ''com.'', ''example.com.'', ''www.example.com.'']"
    by blast
  from q k(3) have b: "ex = Returned \<longrightarrow> queried = [''.'', ''com.'', ''example.com.'', ''www.example.com.'']"
    by simp
  from a b show ?thesis by (simp add: assemble_def)
qed

theorem www_example_com_zones_witness:
  "fst (main [''zone-nameservers'', ''www.example.com''] demoResolv
          (demoWorld (answering (Some demoMsg, None)))) = Returned \<and>
   map fst (sent (snd (main [''zone-nameservers'', ''www.example.com''] demoResolv
                         (demoWorld (answering (Some demoMsg, None))))))
     = [''.'', ''com.'', ''example.com.'', ''www.example.com.'']"
proof -
  let ?w = "demoWorld (answering (Some demoMsg, None))"
  let ?run = "main [''zone-nameservers'', ''www.example.com''] demoResolv ?w"
  have ex: "fst ?run = Returned" by code_simp
  then have h1: "?run = (Returned, snd ?run)" by (simp add: prod_eq_iff)
  have s0: "sent ?w = []" by (simp add: demoWorld_def)
  from www_example_com_zones [OF h1 refl] ex s0 show ?thesis by simp
qed

text \<open>
  C7. Whenever \<open>getNsRecords\<close> returns a list with at least one nameserver, the
  nameserver it selected is a member of that list, for every random source.
\<close>

theorem selected_is_member:
  assumes "getNsRecords zone server w = ((nameservers, randomNs, err), w')"
    and "1 \<le> length nameservers"
  shows "randomNs \<in> set nameservers"
proof -
  obtain r e where lq: "fst (localQuery (Fqdn zone) TypeNS server w) = (r, e)"
    by (cases "fst (localQuery (Fqdn zone) TypeNS server w)")
  from assms(1) have f: "fst (getNsRecords zone server w) = (nameservers, randomNs, err)"
    by simp
  from assms(2) have ne: "nameservers \<noteq> []" by auto
  show ?thesis
  proof (cases r)
    case None
    with lq f ne show ?thesis by (simp add: getNsRecords_fst)
  next
    case (Some m)
    note m = this
    show ?thesis
    proof (cases e)
      case (Some e')
      with lq m f ne show ?thesis by (simp add: getNsRecords_fst)
    next
      case None
      let ?raw = "if nsTargets (Answer m) = [] then nsTargets (Ns m) else nsTargets (Answer m)"
      show ?thesis
      proof (cases "?raw = []")
        case True
        with lq m None f ne show ?thesis by (simp add: getNsRecords_fst Let_def)
      next
        case False
        from lq m None have "fst (localQuery (Fqdn zone) TypeNS server w) = (Some m, None)"
          by simp
        from getNsRecords_extracted [OF this refl False] f
        have "nameservers = sort ?raw" "randomNs = ?raw ! (rnd w (drawn w) mod length ?raw)"
          by simp_all
        moreover from False have "?raw ! (rnd w (drawn w) mod length ?raw) \<in> set ?raw"
          by (intro nth_mem) simp
        ultimately show ?thesis by simp
      qed
    qed
  qed
qed

theorem selected_is_member_witness:
  "1 \<le> length (fst (fst (getNsRecords ''example.com.'' ''a.gtld-servers.net.''
                            (demoWorld (answering (Some referralMsg, None)))))) \<and>
   fst (snd (fst (getNsRecords ''example.com.'' ''a.gtld-servers.net.''
                    (demoWorld (answering (Some referralMsg, None))))))
     \<in> set (fst (fst (getNsRecords ''example.com.'' ''a.gtld-servers.net.''
                        (demoWorld (answering (Some referralMsg, None))))))"
proof -
  let ?g = "getNsRecords ''example.com.'' ''a.gtld-servers.net.''
              (demoWorld (answering (Some referralMsg, None)))"
  have h1: "?g = ((fst (fst ?g), fst (snd (fst ?g)), snd (snd (fst ?g))), snd ?g)"
    by simp
  have h2: "1 \<le> length (fst (fst ?g))"
    by (simp add: getNsRecords_fst localQuery_fst demoWorld_def answering_def referralMsg_def
        RcodeSuccess_def nsTargets_def)
  from selected_is_member [OF h1 h2] h2 show ?thesis by simp
qed

text \<open>
  C8, as amended. \<open>getNsRecords\<close> returns one list, the sorted one; the list in the
  order of extraction is not returned. The nameserver selected is the element of the
  list as extracted, before the sort, at the index the random source gives, so the
  sort has no part in the selection.
\<close>

theorem selection_before_sort:
  assumes "fst (localQuery (Fqdn zone) TypeNS server w) = (Some m, None)"
    and "raw = (if nsTargets (Answer m) = [] then nsTargets (Ns m) else nsTargets (Answer m))"
    and "raw \<noteq> []"
  shows "fst (fst (getNsRecords zone server w)) = sort raw \<and>
         fst (snd (fst (getNsRecords zone server w))) = raw ! (rnd w (drawn w) mod length raw) \<and>
         snd (snd (fst (getNsRecords zone server w))) = None"
  using assms by (simp add: getNsRecords_fst Let_def)

theorem selection_before_sort_witness:
  "fst (localQuery (Fqdn ''com'') TypeNS ''192.0.2.53'' (demoWorld (answering (Some demoMsg, None))))
     = (Some demoMsg, None) \<and>
   fst (fst (getNsRecords ''com'' ''192.0.2.53'' (demoWorld (answering (Some demoMsg, None)))))
     = [''a.gtld-servers.net.'', ''b.gtld-servers.net.''] \<and>
   fst (snd (fst (getNsRecords ''com'' ''192.0.2.53'' (demoWorld (answering (Some demoMsg, None))))))
     = ''b.gtld-servers.net.''"
proof -
  let ?w = "demoWorld (answering (Some demoMsg, None))"
  let ?raw = "[''b.gtld-servers.net.'', ''a.gtld-servers.net.'']"
  have h1: "fst (localQuery (Fqdn ''com'') TypeNS ''192.0.2.53'' ?w) = (Some demoMsg, None)"
    by (simp add: localQuery_fst demoWorld_def answering_def demoMsg_def RcodeSuccess_def)
  have h2: "?raw = (if nsTargets (Answer demoMsg) = [] then nsTargets (Ns demoMsg)
                    else nsTargets (Answer demoMsg))"
    by (simp add: demoMsg_def nsTargets_def)
  have h3: "?raw \<noteq> []" by simp
  have v: "?raw ! (rnd ?w (drawn ?w) mod length ?raw) = ''b.gtld-servers.net.''"
    by code_simp
  from selection_before_sort [OF h1 h2 h3] h1 v show ?thesis by simp
qed

text \<open>
  C8 as stated fails: for an answer section naming \<open>b.gtld-servers.net.\<close> before
  \<open>a.gtld-servers.net.\<close> the list returned is the sorted one and differs from the
  list in the order of extraction.
\<close>

theorem sorted_list_only_counterexample:
  "fst (fst (getNsRecords ''com'' ''192.0.2.53'' (demoWorld (answering (Some demoMsg, None)))))
     = [''a.gtld-servers.net.'', ''b.gtld-servers.net.''] \<and>
   nsTargets (Answer demoMsg) = [''b.gtld-servers.net.'', ''a.gtld-servers.net.''] \<and>
   fst (fst (getNsRecords ''com'' ''192.0.2.53'' (demoWorld (answering (Some demoMsg, None)))))
     \<noteq> nsTargets (Answer demoMsg)"
  by (simp add: getNsRecords_fst localQuery_fst demoWorld_def answering_def demoMsg_def
      RcodeSuccess_def nsTargets_def)



text \<open>
  C10. When the exchange gives neither an error nor a response, \<open>localQuery\<close>
  returns neither, \<open>getNsRecords\<close> returns no error, an empty list and an empty
  selected server, and the walk goes on: the loop continues with the remaining labels
  and \<open>main\<close> enters the loop, in both cases with the empty string as the next
  nameserver.
\<close>

theorem nil_response_continues:
  assumes "net w (length (sent w)) (Fqdn zone) TypeNS (server @ '':53'') = (None, None)"
  shows "fst (localQuery (Fqdn zone) TypeNS server w) = (None, None) \<and>
         fst (getNsRecords zone server w) = ([], [], None) \<and>
         (\<forall>domain domainPieces element assembledDomain.
            zone = assemble assembledDomain element \<longrightarrow>
            (\<exists>w3. walk domain (domainPieces @ [element]) assembledDomain server w =
                     walk domain domainPieces zone [] w3 \<and>
                   sent w3 = sent w @ [(Fqdn zone, TypeNS, server @ '':53'')] \<and>
                   net w3 = net w)) \<and>
         (\<forall>prog domain c rest.
            zone = ''.'' \<and> Servers c = server # rest \<longrightarrow>
            (\<exists>w1. main [prog, domain] (Some c, None) w =
                     walk domain (SplitDomainName domain) ''.'' [] w1 \<and>
                   sent w1 = sent w @ [(''.'', TypeNS, server @ '':53'')] \<and>
                   net w1 = net w))"
proof -
  have lq: "fst (localQuery (Fqdn zone) TypeNS server w0) = (None, None)"
    if "net w0 = net w" "sent w0 = sent w" for w0
    using assms that by (simp add: localQuery_fst)
  have g: "fst (getNsRecords zone server w0) = ([], [], None)"
    if "net w0 = net w" "sent w0 = sent w" for w0
    using lq [OF that] by (simp add: getNsRecords_fst)
  have step: "\<exists>w3. walk domain (domainPieces @ [element]) assembledDomain server w =
                     walk domain domainPieces zone [] w3 \<and>
                   sent w3 = sent w @ [(Fqdn zone, TypeNS, server @ '':53'')] \<and>
                   net w3 = net w"
    if z: "zone = assemble assembledDomain element"
    for domain domainPieces element assembledDomain
  proof -
    let ?w2 = "Println (header zone server) (Print [CHR 0x0A] w)"
    obtain x w3 where gw: "getNsRecords zone server ?w2 = (x, w3)"
      by (cases "getNsRecords zone server ?w2")
    with g [of ?w2] have x: "x = ([], [], None)" by simp
    from gw x have "walk domain (domainPieces @ [element]) assembledDomain server w =
               walk domain domainPieces zone [] w3"
      by (simp add: walk_snoc z [symmetric])
    moreover from getNsRecords_sent [of zone server ?w2] gw
    have "sent w3 = sent w @ [(Fqdn zone, TypeNS, server @ '':53'')]" by simp
    moreover from getNsRecords_net [of zone server ?w2] gw have "net w3 = net w" by simp
    ultimately show ?thesis by blast
  qed
  have root: "\<exists>w1. main [prog, domain] (Some c, None) w =
                     walk domain (SplitDomainName domain) ''.'' [] w1 \<and>
                   sent w1 = sent w @ [(''.'', TypeNS, server @ '':53'')] \<and>
                   net w1 = net w"
    if z: "zone = ''.''" and c: "Servers c = server # rest" for prog domain c rest
  proof -
    let ?w0 = "Println ''Retrieving list of root nameservers:'' w"
    obtain x w1 where gw: "getNsRecords ''.'' server ?w0 = (x, w1)"
      by (cases "getNsRecords ''.'' server ?w0")
    with g [of ?w0] z have x: "x = ([], [], None)" by simp
    from gw x have "main [prog, domain] (Some c, None) w =
               walk domain (SplitDomainName domain) ''.'' [] w1"
      by (simp add: main_run c)
    moreover from getNsRecords_sent [of "''.''" server ?w0] gw
    have "sent w1 = sent w @ [(''.'', TypeNS, server @ '':53'')]" by (simp add: Fqdn_root)
    moreover from getNsRecords_net [of "''.''" server ?w0] gw have "net w1 = net w" by simp
    ultimately show ?thesis by blast
  qed
  from lq [of w] g [of w] step root show ?thesis by blast
qed

theorem nil_response_continues_witness:
  "net (demoWorld (answering (None, None))) (length (sent (demoWorld (answering (None, None)))))
       (Fqdn ''com.'') TypeNS (''a.root-servers.net.'' @ '':53'') = (None, None) \<and>
   fst (getNsRecords ''com.'' ''a.root-servers.net.'' (demoWorld (answering (None, None))))
     = ([], [], None) \<and>
   fst (main [''zone-nameservers'', ''www.example.com''] demoResolv (demoWorld nilAtSecond))
     = Returned \<and>
   map (\<lambda>(qname, qtype, address). (qname, address))
       (sent (snd (main [''zone-nameservers'', ''www.example.com''] demoResolv
                     (demoWorld nilAtSecond))))
     = [(''.'', ''192.0.2.53:53''), (''com.'', ''b.gtld-servers.net.:53''),
        (''example.com.'', '':53''), (''www.example.com.'', ''a.gtld-servers.net.:53'')]"
proof -
  let ?w = "demoWorld (answering (None, None))"
  have h: "net ?w (length (sent ?w)) (Fqdn ''com.'') TypeNS (''a.root-servers.net.'' @ '':53'')
             = (None, None)"
    by (simp add: demoWorld_def answering_def)
  have v1: "fst (main [''zone-nameservers'', ''www.example.com''] demoResolv (demoWorld nilAtSecond))
              = Returned"
    by code_simp
  have v2: "map (\<lambda>(qname, qtype, address). (qname, address))
       (sent (snd (main [''zone-nameservers'', ''www.example.com''] demoResolv
                     (demoWorld nilAtSecond))))
     = [(''.'', ''192.0.2.53:53''), (''com.'', ''b.gtld-servers.net.:53''),
        (''example.com.'', '':53''), (''www.example.com.'', ''a.gtld-servers.net.:53'')]"
    by code_simp
  from nil_response_continues [OF h]
  have "fst (getNsRecords ''com.'' ''a.root-servers.net.'' ?w) = ([], [], None)"
    by (rule conjunct1 [OF conjunct2])
  with h v1 v2 show ?thesis by (intro conjI)
qed

end
